theory Spec2Isabelle
  imports Complex_Main
begin

section \<open>The sketch pad of src/components/SketchPad.tsx\<close>

text \<open>
  The component keeps an ordered log of committed strokes and at most one in-progress
  stroke, repaints a canvas from them, and exports the canvas flattened over an opaque
  background. The model follows the component function by function. React state is a
  record. An event handler belongs to a render: what it reads directly is the state of
  that render (its closure), while a functional updater receives the state with the
  updates queued so far. The pointer handlers, which mix both, take the closure and the
  queued state as two arguments. \<open>step\<close> and \<open>run\<close> dispatch every event to the
  handler of a render that has seen all earlier events; \<open>react\<close> and \<open>run_frames\<close>
  keep the last render and the queued state apart, with the renders as frames of their
  own.
\<close>

subsection \<open>JavaScript values\<close>

text \<open>
  Coordinates are JavaScript numbers; they are modelled as reals (rounding of doubles is
  not modelled, and no property below depends on it). A width is the result of
  \<^verbatim>\<open>parseInt\<close> or one of the initial constants, hence an integer or NaN.
\<close>

datatype jsnum = Num int | NaN

record point =
  px :: real
  py :: real

datatype tool = Brush | Eraser

record stroke =
  points :: "point list"
  color :: string
  width :: jsnum
  tool :: tool

datatype aspect_ratio = Ratio_1_1 | Ratio_2_3 | Ratio_3_2

fun ASPECT_RATIO_MAP :: "aspect_ratio \<Rightarrow> real" where
  "ASPECT_RATIO_MAP Ratio_1_1 = 1"
| "ASPECT_RATIO_MAP Ratio_2_3 = 2 / 3"
| "ASPECT_RATIO_MAP Ratio_3_2 = 3 / 2"

text \<open>
  \<^verbatim>\<open>Array.prototype.slice(start, end)\<close>: a negative index counts from the end, both
  indices are clamped to the array, and an empty range gives the empty array. It never
  throws.
\<close>

definition js_slice :: "int \<Rightarrow> int \<Rightarrow> 'a list \<Rightarrow> 'a list" where
  "js_slice start stop xs =
     (let len = int (length xs);
          k = (if start < 0 then max (len + start) 0 else min start len);
          final = (if stop < 0 then max (len + stop) 0 else min stop len)
      in take (nat (final - k)) (drop (nat k) xs))"

text \<open>
  \<^verbatim>\<open>parseInt(string)\<close> without a radix: leading white space is skipped, one sign is
  read, a prefix 0x or 0X selects radix 16 (radix 10 otherwise), and the longest prefix of
  digits of that radix is the value; no digit at all gives NaN. Only ASCII white space is
  modelled, the value is exact (a double rounds beyond 2^53), and -0 is 0.
\<close>

definition isWhiteSpace :: "char \<Rightarrow> bool" where
  "isWhiteSpace c = ((of_char c :: nat) \<in> {9, 10, 11, 12, 13, 32})"

definition digitValue :: "char \<Rightarrow> nat option" where
  "digitValue c =
     (let n = (of_char c :: nat) in
      if 48 \<le> n \<and> n \<le> 57 then Some (n - 48)
      else if 97 \<le> n \<and> n \<le> 122 then Some (n - 87)
      else if 65 \<le> n \<and> n \<le> 90 then Some (n - 55)
      else None)"

definition isRadixDigit :: "nat \<Rightarrow> char \<Rightarrow> bool" where
  "isRadixDigit R c = (case digitValue c of None \<Rightarrow> False | Some d \<Rightarrow> d < R)"

definition digitsValue :: "nat \<Rightarrow> string \<Rightarrow> nat" where
  "digitsValue R Z =
     foldl (\<lambda>acc c. acc * R + (case digitValue c of Some d \<Rightarrow> d | None \<Rightarrow> 0)) 0 Z"

definition parseInt :: "string \<Rightarrow> jsnum" where
  "parseInt inputString =
     (let S0 = dropWhile isWhiteSpace inputString;
          sign = (if S0 \<noteq> [] \<and> hd S0 = CHR ''-'' then - 1 else 1 :: int);
          S1 = (if S0 \<noteq> [] \<and> (hd S0 = CHR ''+'' \<or> hd S0 = CHR ''-'') then tl S0 else S0);
          hex = (2 \<le> length S1 \<and> (take 2 S1 = ''0x'' \<or> take 2 S1 = ''0X''));
          R = (if hex then 16 else 10 :: nat);
          S2 = (if hex then drop 2 S1 else S1);
          Z = takeWhile (isRadixDigit R) S2
      in if Z = [] then NaN else Num (sign * int (digitsValue R Z)))"

text \<open>
  The string of an integer, as \<^verbatim>\<open>String(n)\<close> gives it: decimal digits without
  leading zeros, after a minus sign for a negative number.
\<close>

definition digitChar :: "nat \<Rightarrow> char" where
  "digitChar d = char_of (48 + d)"

fun decimalString :: "nat \<Rightarrow> string" where
  "decimalString n =
     (if n < 10 then [digitChar n] else decimalString (n div 10) @ [digitChar (n mod 10)])"

definition intString :: "int \<Rightarrow> string" where
  "intString i = (if i < 0 then CHR ''-'' # decimalString (nat (- i)) else decimalString (nat i))"

subsection \<open>The range input\<close>

text \<open>
  An \<^verbatim>\<open>input\<close> of type range with integer \<^verbatim>\<open>min\<close> and \<^verbatim>\<open>max\<close> and the
  default step 1. Whatever value it is asked to take, by the pointer, the keyboard or a
  script, the control sanitizes it before any handler sees it: something that is not a
  number becomes the default value (the middle of the range), a number below the minimum
  becomes the minimum, a number above the maximum becomes the maximum, and the result is
  rounded to the nearest step counted from the minimum, upwards from the middle between
  two steps. \<^verbatim>\<open>e.target.value\<close> is the string of that number.
\<close>

datatype raw_value = Number real | NotANumber

definition rangeSanitized :: "int \<Rightarrow> int \<Rightarrow> raw_value \<Rightarrow> int" where
  "rangeSanitized lo hi raw =
     (let dflt = (if hi < lo then real_of_int lo
                  else real_of_int lo + (real_of_int hi - real_of_int lo) / 2);
          v = (case raw of NotANumber \<Rightarrow> dflt | Number r \<Rightarrow> r);
          clamped = (if v < real_of_int lo then real_of_int lo
                     else if lo \<le> hi \<and> real_of_int hi < v then real_of_int hi else v)
      in lo + \<lfloor>clamped - real_of_int lo + 1 / 2\<rfloor>)"

definition rangeInputValue :: "int \<Rightarrow> int \<Rightarrow> raw_value \<Rightarrow> string" where
  "rangeInputValue lo hi raw = intString (rangeSanitized lo hi raw)"

subsection \<open>The canvas element and its 2D context\<close>

text \<open>
  The context is the state the Canvas API keeps: the drawing attributes the source
  assigns, the current path as a list of subpaths, and what has been painted so far, in
  painting order. Assigning to \<^verbatim>\<open>lineWidth\<close> a value that is not a positive number,
  or to \<^verbatim>\<open>strokeStyle\<close> or \<^verbatim>\<open>fillStyle\<close> a string that is not a colour, leaves
  the attribute as it was. Of the colour syntax the hexadecimal notations are modelled (a
  hash sign and 3, 4, 6 or 8 hexadecimal digits), which is what the component passes; the
  properties below speak of such colours only.
\<close>

datatype line_cap = ButtCap | RoundCap | SquareCap

datatype line_join = MiterJoin | RoundJoin | BevelJoin

datatype composite_operation = SourceOver | DestinationOut

datatype paint =
    ClearedRect real real real real
  | FilledRect string real real real real
  | StrokedPath "point list list" string jsnum line_cap line_join composite_operation
  | DrawnImage "paint list" real real

record context2d =
  strokeStyle :: string
  fillStyle :: string
  lineWidth :: jsnum
  lineCap :: line_cap
  lineJoin :: line_join
  globalCompositeOperation :: composite_operation
  path :: "point list list"
  bitmap :: "paint list"

record dom_rect =
  rect_left :: real
  rect_top :: real

text \<open>
  The canvas element is rendered with \<^verbatim>\<open>width={800 * ASPECT_RATIO_MAP[aspectRatio]}\<close>
  and \<^verbatim>\<open>height={800}\<close>; the element's pixel width is the integer the DOM reads from
  that attribute (its leading digits). \<open>getContext2d\<close> is what \<^verbatim>\<open>getContext('2d')\<close>
  returns, \<open>None\<close> for null.
\<close>

record canvas =
  ratio :: aspect_ratio
  boundingClientRect :: dom_rect
  getContext2d :: "context2d option"

definition canvas_width_attr :: "aspect_ratio \<Rightarrow> real" where
  "canvas_width_attr r = 800 * ASPECT_RATIO_MAP r"

definition canvas_height_attr :: real where
  "canvas_height_attr = 800"

definition canvas_width :: "canvas \<Rightarrow> nat" where
  "canvas_width c = nat \<lfloor>canvas_width_attr (ratio c)\<rfloor>"

definition canvas_height :: "canvas \<Rightarrow> nat" where
  "canvas_height c = nat \<lfloor>canvas_height_attr\<rfloor>"

definition new_context :: context2d where
  "new_context = \<lparr>strokeStyle = ''#000000'', fillStyle = ''#000000'', lineWidth = Num 1,
     lineCap = ButtCap, lineJoin = MiterJoin, globalCompositeOperation = SourceOver,
     path = [], bitmap = []\<rparr>"

definition isHexDigit :: "char \<Rightarrow> bool" where
  "isHexDigit c = isRadixDigit 16 c"

definition isHexColor :: "string \<Rightarrow> bool" where
  "isHexColor v =
     (case v of
        [] \<Rightarrow> False
      | c # ds \<Rightarrow> c = CHR ''#'' \<and> length ds \<in> {3, 4, 6, 8} \<and> list_all isHexDigit ds)"

definition set_strokeStyle :: "string \<Rightarrow> context2d \<Rightarrow> context2d" where
  "set_strokeStyle v ctx = (if isHexColor v then ctx\<lparr>strokeStyle := v\<rparr> else ctx)"

definition set_fillStyle :: "string \<Rightarrow> context2d \<Rightarrow> context2d" where
  "set_fillStyle v ctx = (if isHexColor v then ctx\<lparr>fillStyle := v\<rparr> else ctx)"

definition set_lineWidth :: "jsnum \<Rightarrow> context2d \<Rightarrow> context2d" where
  "set_lineWidth w ctx =
     (case w of
        Num n \<Rightarrow> if 0 < n then ctx\<lparr>lineWidth := w\<rparr> else ctx
      | NaN \<Rightarrow> ctx)"

definition clearRect :: "real \<Rightarrow> real \<Rightarrow> real \<Rightarrow> real \<Rightarrow> context2d \<Rightarrow> context2d" where
  "clearRect x0 y0 w h ctx = ctx\<lparr>bitmap := bitmap ctx @ [ClearedRect x0 y0 w h]\<rparr>"

definition fillRect :: "real \<Rightarrow> real \<Rightarrow> real \<Rightarrow> real \<Rightarrow> context2d \<Rightarrow> context2d" where
  "fillRect x0 y0 w h ctx = ctx\<lparr>bitmap := bitmap ctx @ [FilledRect (fillStyle ctx) x0 y0 w h]\<rparr>"

definition beginPath :: "context2d \<Rightarrow> context2d" where
  "beginPath ctx = ctx\<lparr>path := []\<rparr>"

definition moveTo :: "real \<Rightarrow> real \<Rightarrow> context2d \<Rightarrow> context2d" where
  "moveTo x0 y0 ctx = ctx\<lparr>path := path ctx @ [[\<lparr>px = x0, py = y0\<rparr>]]\<rparr>"

definition lineTo :: "real \<Rightarrow> real \<Rightarrow> context2d \<Rightarrow> context2d" where
  "lineTo x0 y0 ctx =
     (if path ctx = [] then ctx\<lparr>path := [[\<lparr>px = x0, py = y0\<rparr>]]\<rparr>
      else ctx\<lparr>path := butlast (path ctx) @ [last (path ctx) @ [\<lparr>px = x0, py = y0\<rparr>]]\<rparr>)"

definition stroke_path :: "context2d \<Rightarrow> context2d" where
  "stroke_path ctx = ctx\<lparr>bitmap := bitmap ctx @
     [StrokedPath (path ctx) (strokeStyle ctx) (lineWidth ctx) (lineCap ctx) (lineJoin ctx)
        (globalCompositeOperation ctx)]\<rparr>"

definition canvas_bitmap :: "canvas \<Rightarrow> paint list" where
  "canvas_bitmap c = (case getContext2d c of None \<Rightarrow> [] | Some ctx \<Rightarrow> bitmap ctx)"

definition drawImage :: "canvas \<Rightarrow> real \<Rightarrow> real \<Rightarrow> context2d \<Rightarrow> context2d" where
  "drawImage src dx dy ctx = ctx\<lparr>bitmap := bitmap ctx @ [DrawnImage (canvas_bitmap src) dx dy]\<rparr>"

subsection \<open>Component state\<close>

text \<open>
  The \<^verbatim>\<open>useState\<close> cells of \<^verbatim>\<open>SketchPad\<close>, with the \<^verbatim>\<open>aspectRatio\<close>
  prop (a state cell of \<^verbatim>\<open>App\<close>, handed down together with its setter).
\<close>

record sketchpad =
  isDrawing :: bool
  strokes :: "stroke list"
  currentPath :: "stroke option"
  activeTool :: tool
  brushColor :: string
  brushSize :: jsnum
  eraserSize :: jsnum
  aspectRatio :: aspect_ratio

definition initial :: sketchpad where
  "initial = \<lparr>isDrawing = False, strokes = [], currentPath = None, activeTool = Brush,
     brushColor = ''#EF4444'', brushSize = Num 5, eraserSize = Num 20,
     aspectRatio = Ratio_3_2\<rparr>"

definition colors :: "(string \<times> string) list" where
  "colors = [(''Red'', ''#EF4444''), (''Blue'', ''#3B82F6''), (''Green'', ''#22C55E''),
     (''White'', ''#FFFFFF'')]"

subsection \<open>Pointer input\<close>

text \<open>
  A mouse event carries its own client position; a touch event carries the list of
  current touches, of which the first is used. A touchstart or touchmove event always
  lists at least one touch, so the list is given as its first element and the rest.
\<close>

record client_pos =
  clientX :: real
  clientY :: real

datatype pointer_event = MouseEvent client_pos | TouchEvent client_pos "client_pos list"

definition getCanvasCoordinates :: "canvas option \<Rightarrow> pointer_event \<Rightarrow> point" where
  "getCanvasCoordinates canvasRef e =
     (case canvasRef of
        None \<Rightarrow> \<lparr>px = 0, py = 0\<rparr>
      | Some cv \<Rightarrow>
          (let rect = boundingClientRect cv;
               touch = (case e of TouchEvent t0 _ \<Rightarrow> t0 | MouseEvent m \<Rightarrow> m)
           in \<lparr>px = clientX touch - rect_left rect, py = clientY touch - rect_top rect\<rparr>))"

text \<open>
  The pointer handlers. \<open>cl\<close> is the state of the render the handler was created
  in: the handlers read \<^verbatim>\<open>brushColor\<close>, \<^verbatim>\<open>activeTool\<close>, the two sizes,
  \<^verbatim>\<open>isDrawing\<close> and \<^verbatim>\<open>currentPath\<close> from it. \<open>s\<close> is the state with the
  updates queued so far, to which the updates of the handler are added; the updaters
  \<^verbatim>\<open>prev => ...\<close> of \<^verbatim>\<open>setCurrentPath\<close> and \<^verbatim>\<open>setStrokes\<close> read it. In
  \<^verbatim>\<open>handleMouseUp\<close> the stroke that is appended is the \<^verbatim>\<open>currentPath\<close> of the
  closure, not that of the queued state.
\<close>

definition handleMouseDown ::
  "canvas option \<Rightarrow> pointer_event \<Rightarrow> sketchpad \<Rightarrow> sketchpad \<Rightarrow> sketchpad" where
  "handleMouseDown canvasRef e cl s =
     (let pt = getCanvasCoordinates canvasRef e
      in s\<lparr>isDrawing := True,
            currentPath := Some \<lparr>points = [pt], color = brushColor cl,
              width = (if activeTool cl = Brush then brushSize cl else eraserSize cl),
              tool = activeTool cl\<rparr>\<rparr>)"

definition handleMouseMove ::
  "canvas option \<Rightarrow> pointer_event \<Rightarrow> sketchpad \<Rightarrow> sketchpad \<Rightarrow> sketchpad" where
  "handleMouseMove canvasRef e cl s =
     (if \<not> isDrawing cl \<or> currentPath cl = None then s
      else
        (let pt = getCanvasCoordinates canvasRef e
         in s\<lparr>currentPath :=
              (case currentPath s of
                 Some prev \<Rightarrow> Some (prev\<lparr>points := points prev @ [pt]\<rparr>)
               | None \<Rightarrow> None)\<rparr>))"

definition handleMouseUp :: "sketchpad \<Rightarrow> sketchpad \<Rightarrow> sketchpad" where
  "handleMouseUp cl s =
     (let s1 = (case currentPath cl of
                  Some cp \<Rightarrow> s\<lparr>strokes := strokes s @ [cp]\<rparr>
                | None \<Rightarrow> s)
      in s1\<lparr>currentPath := None, isDrawing := False\<rparr>)"

definition handleUndo :: "sketchpad \<Rightarrow> sketchpad" where
  "handleUndo s = s\<lparr>strokes := js_slice 0 (- 1) (strokes s)\<rparr>"

definition handleClear :: "sketchpad \<Rightarrow> sketchpad" where
  "handleClear s = s\<lparr>strokes := []\<rparr>"

subsection \<open>The toolbar\<close>

text \<open>
  The inline handlers of the toolbar: the three ratio buttons, the four colour buttons,
  the eraser button, and the two range inputs (declared with min 1 and max 50 for the
  brush, min 1 and max 100 for the eraser), whose handlers store
  \<^verbatim>\<open>parseInt(e.target.value)\<close>. The handlers do not check the value themselves:
  what they receive is the value of the range input, which the control has sanitized.
\<close>

definition setAspectRatio :: "aspect_ratio \<Rightarrow> sketchpad \<Rightarrow> sketchpad" where
  "setAspectRatio r s = s\<lparr>aspectRatio := r\<rparr>"

definition selectColor :: "string \<Rightarrow> sketchpad \<Rightarrow> sketchpad" where
  "selectColor v s = (s\<lparr>brushColor := v\<rparr>)\<lparr>activeTool := Brush\<rparr>"

definition selectEraser :: "sketchpad \<Rightarrow> sketchpad" where
  "selectEraser s = s\<lparr>activeTool := Eraser\<rparr>"

definition onBrushSizeChange :: "string \<Rightarrow> sketchpad \<Rightarrow> sketchpad" where
  "onBrushSizeChange v s = s\<lparr>brushSize := parseInt v\<rparr>"

definition onEraserSizeChange :: "string \<Rightarrow> sketchpad \<Rightarrow> sketchpad" where
  "onEraserSizeChange v s = s\<lparr>eraserSize := parseInt v\<rparr>"

definition brushMin :: int where "brushMin = 1"
definition brushMax :: int where "brushMax = 50"
definition eraserMin :: int where "eraserMin = 1"
definition eraserMax :: int where "eraserMax = 100"

subsection \<open>Events\<close>

text \<open>
  The events the component reacts to. \<open>PointerBegin\<close> is mousedown or touchstart,
  \<open>PointerMove\<close> is mousemove or touchmove, \<open>PointerEnd\<close> is mouseup, mouseleave or
  touchend. Each event is dispatched together with what \<^verbatim>\<open>canvasRef.current\<close> holds
  at that moment. A slider event carries the value the range input was asked to take;
  its handler receives the sanitized value of the control. \<open>step\<close> is the reaction
  of a render that is up to date: the closure and the queued state are the same.
\<close>

datatype event =
    PointerBegin pointer_event
  | PointerMove pointer_event
  | PointerEnd
  | UndoClick
  | ClearClick
  | RatioClick aspect_ratio
  | ColorClick string
  | EraserClick
  | BrushSizeChange raw_value
  | EraserSizeChange raw_value

fun step :: "canvas option \<times> event \<Rightarrow> sketchpad \<Rightarrow> sketchpad" where
  "step (cv, PointerBegin e) s = handleMouseDown cv e s s"
| "step (cv, PointerMove e) s = handleMouseMove cv e s s"
| "step (cv, PointerEnd) s = handleMouseUp s s"
| "step (cv, UndoClick) s = handleUndo s"
| "step (cv, ClearClick) s = handleClear s"
| "step (cv, RatioClick r) s = setAspectRatio r s"
| "step (cv, ColorClick v) s = selectColor v s"
| "step (cv, EraserClick) s = selectEraser s"
| "step (cv, BrushSizeChange raw) s =
     onBrushSizeChange (rangeInputValue brushMin brushMax raw) s"
| "step (cv, EraserSizeChange raw) s =
     onEraserSizeChange (rangeInputValue eraserMin eraserMax raw) s"

fun run :: "(canvas option \<times> event) list \<Rightarrow> sketchpad \<Rightarrow> sketchpad" where
  "run [] s = s"
| "run (d # ds) s = run ds (step d s)"

text \<open>
  Renders that lag behind. React renders at once after a discrete event (mousedown,
  mouseup, touchstart, touchend, click, change), but it only schedules the render after a
  continuous one (mousemove, touchmove, mouseleave), so that the next event can reach the
  handlers of the previous render. A component is the state of the last render and the
  state with the queued updates; a frame is an event, handled by the handlers of the last
  render, or a render, which brings the queued state on screen. \<^verbatim>\<open>handleUndo\<close>
  stores the slice of the log of its closure; the other toolbar handlers read nothing
  from their closure.
\<close>

record component =
  rendered :: sketchpad
  queued :: sketchpad

datatype frame = Dispatch "canvas option \<times> event" | Render

fun react :: "frame \<Rightarrow> component \<Rightarrow> component" where
  "react Render k = k\<lparr>rendered := queued k\<rparr>"
| "react (Dispatch (cv, PointerBegin e)) k =
     k\<lparr>queued := handleMouseDown cv e (rendered k) (queued k)\<rparr>"
| "react (Dispatch (cv, PointerMove e)) k =
     k\<lparr>queued := handleMouseMove cv e (rendered k) (queued k)\<rparr>"
| "react (Dispatch (cv, PointerEnd)) k =
     k\<lparr>queued := handleMouseUp (rendered k) (queued k)\<rparr>"
| "react (Dispatch (cv, UndoClick)) k =
     k\<lparr>queued := (queued k)\<lparr>strokes := strokes (handleUndo (rendered k))\<rparr>\<rparr>"
| "react (Dispatch (cv, ev)) k = k\<lparr>queued := step (cv, ev) (queued k)\<rparr>"

fun run_frames :: "frame list \<Rightarrow> component \<Rightarrow> component" where
  "run_frames [] k = k"
| "run_frames (f # fs) k = run_frames fs (react f k)"

definition mounted :: component where
  "mounted = \<lparr>rendered = initial, queued = initial\<rparr>"

subsection \<open>Rendering\<close>

text \<open>
  \<^verbatim>\<open>draw\<close> repaints the canvas from the log and the in-progress stroke. The body of
  the \<^verbatim>\<open>forEach\<close> is \<open>draw_stroke\<close>; it runs over \<^verbatim>\<open>[...strokes, currentPath]\<close>,
  whose last element may be null.
\<close>

definition draw_stroke :: "stroke option \<Rightarrow> context2d \<Rightarrow> context2d" where
  "draw_stroke so ctx =
     (case so of
        None \<Rightarrow> ctx
      | Some st \<Rightarrow>
          (case points st of
             [] \<Rightarrow> ctx
           | p0 # _ \<Rightarrow>
               (let c1 = beginPath ctx;
                    c2 = set_strokeStyle (color st) c1;
                    c3 = set_lineWidth (width st) c2;
                    c4 = c3\<lparr>lineCap := RoundCap\<rparr>;
                    c5 = c4\<lparr>lineJoin := RoundJoin\<rparr>;
                    c6 = c5\<lparr>globalCompositeOperation :=
                           (if tool st = Eraser then DestinationOut else SourceOver)\<rparr>;
                    c7 = moveTo (px p0) (py p0) c6;
                    c8 = fold (\<lambda>p. lineTo (px p) (py p)) (points st) c7
                in stroke_path c8)))"

definition draw :: "stroke list \<Rightarrow> stroke option \<Rightarrow> canvas option \<Rightarrow> canvas option" where
  "draw strks cur canvasRef =
     (case canvasRef of
        None \<Rightarrow> None
      | Some cv \<Rightarrow>
          (case getContext2d cv of
             None \<Rightarrow> Some cv
           | Some ctx \<Rightarrow>
               (let c1 = clearRect 0 0 (real (canvas_width cv)) (real (canvas_height cv)) ctx;
                    c2 = fold draw_stroke (map Some strks @ [cur]) c1;
                    c3 = c2\<lparr>globalCompositeOperation := SourceOver\<rparr>
                in Some (cv\<lparr>getContext2d := Some c3\<rparr>))))"

subsection \<open>Export\<close>

text \<open>
  \<^verbatim>\<open>getCanvasData\<close> reads the live canvas and paints a temporary one. The world it
  could touch is the component state and the canvas behind the ref; it is returned with
  the result. \<open>tempCtx\<close> tells whether \<^verbatim>\<open>getContext('2d')\<close> of the temporary canvas
  gives a context. The data URL is kept as the image it encodes: the pixel size of the
  temporary canvas and what was painted on it. The live canvas always has the non-zero
  size of its ratio, so \<^verbatim>\<open>drawImage\<close> cannot fail on an empty source.
\<close>

record world =
  pad :: sketchpad
  canvasRef :: "canvas option"

datatype data_url = PngDataURL nat nat "paint list"

definition getCanvasData :: "bool \<Rightarrow> world \<Rightarrow> data_url option \<times> world" where
  "getCanvasData tempCtx w =
     (case canvasRef w of
        Some cv \<Rightarrow>
          (let tempWidth = canvas_width cv;
               tempHeight = canvas_height cv
           in if \<not> tempCtx then (None, w)
              else
                (let t1 = set_fillStyle ''#0D1117'' new_context;
                     t2 = fillRect 0 0 (real tempWidth) (real tempHeight) t1;
                     t3 = drawImage cv 0 0 t2
                 in (Some (PngDataURL tempWidth tempHeight (bitmap t3)), w)))
      | None \<Rightarrow> (None, w))"

subsection \<open>Notions used in the properties\<close>

text \<open>
  The stroke a pointer-begin event opens in a given state; the invariant that neither a
  committed stroke nor the in-progress stroke is without points; and a whole gesture: one
  pointer-begin, some pointer-moves, one pointer-end.
\<close>

definition open_stroke :: "canvas option \<Rightarrow> pointer_event \<Rightarrow> sketchpad \<Rightarrow> stroke" where
  "open_stroke cv e s = \<lparr>points = [getCanvasCoordinates cv e], color = brushColor s,
     width = (if activeTool s = Brush then brushSize s else eraserSize s),
     tool = activeTool s\<rparr>"


definition gesture ::
  "canvas option \<times> pointer_event \<Rightarrow> (canvas option \<times> pointer_event) list \<Rightarrow> canvas option
     \<Rightarrow> (canvas option \<times> event) list" where
  "gesture b ms cv = (fst b, PointerBegin (snd b)) # map (\<lambda>m. (fst m, PointerMove (snd m))) ms
     @ [(cv, PointerEnd)]"

text \<open>
  The ranges the two range inputs declare, as predicates: a width within bounds, a stroke
  whose width is within the bounds of its tool, and a state all of whose widths are.
\<close>

definition width_within :: "int \<Rightarrow> int \<Rightarrow> jsnum \<Rightarrow> bool" where
  "width_within lo hi w = (case w of Num n \<Rightarrow> lo \<le> n \<and> n \<le> hi | NaN \<Rightarrow> False)"

definition stroke_width_ok :: "stroke \<Rightarrow> bool" where
  "stroke_width_ok st =
     (case tool st of
        Brush \<Rightarrow> width_within brushMin brushMax (width st)
      | Eraser \<Rightarrow> width_within eraserMin eraserMax (width st))"

definition widths_ok :: "sketchpad \<Rightarrow> bool" where
  "widths_ok s =
     (width_within brushMin brushMax (brushSize s)
      \<and> width_within eraserMin eraserMax (eraserSize s)
      \<and> list_all stroke_width_ok (strokes s)
      \<and> (case currentPath s of None \<Rightarrow> True | Some p \<Rightarrow> stroke_width_ok p))"

text \<open>
  A stroke the canvas paints with the stroke's own attributes: its width is a positive
  number and its colour is a colour. A state all of whose colours are colours. A colour
  click of the toolbar: one of the buttons made from \<open>colors\<close>.
\<close>

definition paintable :: "stroke \<Rightarrow> bool" where
  "paintable st = ((case width st of Num n \<Rightarrow> 0 < n | NaN \<Rightarrow> False) \<and> isHexColor (color st))"

definition palette_ok :: "sketchpad \<Rightarrow> bool" where
  "palette_ok s =
     (isHexColor (brushColor s)
      \<and> list_all (\<lambda>st. isHexColor (color st)) (strokes s)
      \<and> (case currentPath s of None \<Rightarrow> True | Some p \<Rightarrow> isHexColor (color p)))"

fun palette_click :: "event \<Rightarrow> bool" where
  "palette_click (ColorClick v) = (v \<in> set (map snd colors))"
| "palette_click _ = True"

text \<open>
  The renderer and the exporter as the specification words them, to compare with
  \<open>draw\<close> and \<open>getCanvasData\<close>. The strokes that are rendered are those of the
  log, in order, then the in-progress stroke if there is one, without the strokes that
  have no point. A rendered stroke is painted as one subpath that starts at its first
  point and runs through all its points in order (the first point is therefore listed
  twice: the move to it and the line to it), with round caps and joins, in the
  stroke's colour and width, composited source-over for the brush and destination-out
  for the eraser. The flattened image has the pixel size of the live canvas and consists
  of the background fill over the whole area and, over it, the live bitmap at the origin.
\<close>

definition spec_composite :: "tool \<Rightarrow> composite_operation" where
  "spec_composite t = (case t of Brush \<Rightarrow> SourceOver | Eraser \<Rightarrow> DestinationOut)"

definition spec_painted_stroke :: "stroke \<Rightarrow> paint" where
  "spec_painted_stroke st =
     StrokedPath (case points st of [] \<Rightarrow> [] | p0 # ps \<Rightarrow> [p0 # p0 # ps])
       (color st) (width st) RoundCap RoundJoin (spec_composite (tool st))"

definition spec_render_sequence :: "stroke list \<Rightarrow> stroke option \<Rightarrow> stroke list" where
  "spec_render_sequence strks cur =
     filter (\<lambda>st. points st \<noteq> []) (strks @ (case cur of None \<Rightarrow> [] | Some st \<Rightarrow> [st]))"

definition spec_flattened :: "canvas \<Rightarrow> data_url" where
  "spec_flattened cv =
     PngDataURL (canvas_width cv) (canvas_height cv)
       [FilledRect ''#0D1117'' 0 0 (real (canvas_width cv)) (real (canvas_height cv)),
        DrawnImage (canvas_bitmap cv) 0 0]"

subsection \<open>Sample drawings\<close>

definition red_line :: stroke where
  "red_line = \<lparr>points = [\<lparr>px = 10, py = 10\<rparr>, \<lparr>px = 20, py = 10\<rparr>, \<lparr>px = 30, py = 10\<rparr>],
     color = ''#EF4444'', width = Num 5, tool = Brush\<rparr>"

definition rubber_dot :: stroke where
  "rubber_dot = \<lparr>points = [\<lparr>px = 20, py = 10\<rparr>], color = ''#EF4444'', width = Num 20,
     tool = Eraser\<rparr>"

definition mouse_at :: "real \<Rightarrow> real \<Rightarrow> pointer_event" where
  "mouse_at x0 y0 = MouseEvent \<lparr>clientX = x0, clientY = y0\<rparr>"

definition page_canvas :: canvas where
  "page_canvas = \<lparr>ratio = Ratio_3_2, boundingClientRect = \<lparr>rect_left = 8, rect_top = 100\<rparr>,
     getContext2d = Some new_context\<rparr>"

definition drawing_state :: sketchpad where
  "drawing_state = run [(Some page_canvas, PointerBegin (mouse_at 18 110)),
     (Some page_canvas, PointerMove (mouse_at 28 110))] initial"


definition late_render_moves :: "frame list" where
  "late_render_moves =
     [Dispatch (Some page_canvas, PointerBegin (mouse_at 18 110)), Render,
      Dispatch (Some page_canvas, PointerMove (mouse_at 28 110)), Render,
      Dispatch (Some page_canvas, PointerMove (mouse_at 38 110))]"

definition empty_stroke :: stroke where
  "empty_stroke = \<lparr>points = [], color = ''#3B82F6'', width = Num 5, tool = Brush\<rparr>"

definition page_world :: world where
  "page_world = \<lparr>pad = initial\<lparr>strokes := [red_line, rubber_dot]\<rparr>,
     canvasRef = draw [red_line, rubber_dot] None (Some page_canvas)\<rparr>"

section \<open>Properties\<close>

subsection \<open>Evaluation on concrete inputs\<close>

lemmas handler_defs = handleMouseDown_def handleMouseMove_def handleMouseUp_def handleUndo_def
  handleClear_def setAspectRatio_def selectColor_def selectEraser_def onBrushSizeChange_def
  onEraserSizeChange_def

lemmas parseInt_defs = parseInt_def isWhiteSpace_def isRadixDigit_def digitValue_def
  digitsValue_def

lemmas sample_defs = initial_def page_canvas_def mouse_at_def getCanvasCoordinates_def


lemmas setter_defs = set_strokeStyle_def set_fillStyle_def set_lineWidth_def isHexColor_def
  isHexDigit_def isRadixDigit_def digitValue_def

subsection \<open>Undo and clear\<close>

lemma js_slice_drop_last: "js_slice 0 (- 1) xs = butlast xs"
  by (cases xs rule: rev_cases) (simp_all add: js_slice_def)

lemma strokes_handleUndo: "strokes (handleUndo s) = butlast (strokes s)"
  by (simp add: handleUndo_def js_slice_drop_last)

lemma strokes_undo_iterated:
  "strokes ((handleUndo ^^ n) s) = take (length (strokes s) - n) (strokes s)"
proof (induction n)
  case 0
  show ?case by simp
next
  case (Suc n)
  have "strokes ((handleUndo ^^ Suc n) s) = butlast (strokes ((handleUndo ^^ n) s))"
    by (simp add: strokes_handleUndo)
  also have "\<dots> = butlast (take (length (strokes s) - n) (strokes s))"
    by (simp add: Suc.IH)
  also have "\<dots> = take (length (strokes s) - n - 1) (strokes s)"
    by (simp add: butlast_take)
  finally show ?case by simp
qed

text \<open>
  C2. Undo removes exactly the stroke appended last when the log is not empty, leaves
  the whole state as it is when the log is empty (the handler has no failing branch:
  \<^verbatim>\<open>slice\<close> never throws), and undoing as many times as the log has strokes
  empties the log.
\<close>

theorem undo_removes_last_stroke:
  "strokes (handleUndo (s\<lparr>strokes := committed @ [st]\<rparr>)) = committed
   \<and> handleUndo (s\<lparr>strokes := []\<rparr>) = s\<lparr>strokes := []\<rparr>
   \<and> (strokes s = [] \<longrightarrow> handleUndo s = s)
   \<and> (strokes s \<noteq> [] \<longrightarrow> strokes (handleUndo s) @ [last (strokes s)] = strokes s)
   \<and> strokes ((handleUndo ^^ length (strokes s)) s) = []"
proof (intro conjI impI)
  show "strokes (handleUndo (s\<lparr>strokes := committed @ [st]\<rparr>)) = committed"
    by (simp add: strokes_handleUndo)
  show "handleUndo (s\<lparr>strokes := []\<rparr>) = s\<lparr>strokes := []\<rparr>"
    by (simp add: handleUndo_def js_slice_drop_last)
  show "handleUndo s = s" if "strokes s = []"
    using that by (simp add: handleUndo_def js_slice_drop_last)
  show "strokes (handleUndo s) @ [last (strokes s)] = strokes s" if "strokes s \<noteq> []"
    using that by (simp add: strokes_handleUndo)
  show "strokes ((handleUndo ^^ length (strokes s)) s) = []"
    by (simp add: strokes_undo_iterated)
qed

text \<open>The scenario of the log [red line, eraser dot], and the empty log.\<close>

theorem undo_removes_last_stroke_witness:
  "strokes (initial\<lparr>strokes := [red_line, rubber_dot]\<rparr>) \<noteq> []
   \<and> strokes (handleUndo (initial\<lparr>strokes := [red_line, rubber_dot]\<rparr>)) = [red_line]
   \<and> strokes initial = [] \<and> handleUndo initial = initial"
  using undo_removes_last_stroke [where s = "initial\<lparr>strokes := [red_line, rubber_dot]\<rparr>"
      and committed = "[red_line]" and st = rubber_dot]
    undo_removes_last_stroke [where s = initial and committed = "[]" and st = rubber_dot]
  by (simp add: initial_def)

text \<open>
  C10. Undo and clear change the committed log only: the in-progress stroke, the
  drawing flag, the active tool, the brush colour, both widths and the aspect ratio are
  what they were, so an in-progress stroke survives both.
\<close>

theorem undo_clear_change_only_log:
  "currentPath (handleUndo s) = currentPath s \<and> isDrawing (handleUndo s) = isDrawing s
   \<and> activeTool (handleUndo s) = activeTool s \<and> brushColor (handleUndo s) = brushColor s
   \<and> brushSize (handleUndo s) = brushSize s \<and> eraserSize (handleUndo s) = eraserSize s
   \<and> aspectRatio (handleUndo s) = aspectRatio s
   \<and> currentPath (handleClear s) = currentPath s \<and> isDrawing (handleClear s) = isDrawing s
   \<and> activeTool (handleClear s) = activeTool s \<and> brushColor (handleClear s) = brushColor s
   \<and> brushSize (handleClear s) = brushSize s \<and> eraserSize (handleClear s) = eraserSize s
   \<and> aspectRatio (handleClear s) = aspectRatio s"
  by (simp add: handleUndo_def handleClear_def)

subsection \<open>Pointer input\<close>

lemma run_append: "run (ds @ es) s = run es (run ds s)"
  by (induction ds arbitrary: s) simp_all

lemma handleMouseDown_open:
  "handleMouseDown cv e cl s = s\<lparr>isDrawing := True, currentPath := Some (open_stroke cv e cl)\<rparr>"
  by (simp add: handleMouseDown_def open_stroke_def)

lemma handleMouseMove_open:
  "isDrawing cl \<Longrightarrow> currentPath cl \<noteq> None \<Longrightarrow> currentPath s = Some p \<Longrightarrow>
   handleMouseMove cv e cl s = s\<lparr>currentPath := Some (p\<lparr>points := points p @ [getCanvasCoordinates cv e]\<rparr>)\<rparr>"
  by (auto simp add: handleMouseMove_def)

lemma handleMouseMove_idle:
  "\<not> isDrawing cl \<or> currentPath cl = None \<Longrightarrow> handleMouseMove cv e cl s = s"
  by (auto simp add: handleMouseMove_def)

lemma handleMouseUp_commit:
  "strokes (handleMouseUp cl s) = strokes s @ (case currentPath cl of None \<Rightarrow> [] | Some p \<Rightarrow> [p])"
  by (simp add: handleMouseUp_def split: option.split)

lemma run_moves:
  "isDrawing s \<Longrightarrow> currentPath s = Some p \<Longrightarrow>
   run (map (\<lambda>m. (fst m, PointerMove (snd m))) ms) s =
     s\<lparr>currentPath := Some (p\<lparr>points := points p @ map (\<lambda>m. getCanvasCoordinates (fst m) (snd m)) ms\<rparr>)\<rparr>"
proof (induction ms arbitrary: s p)
  case Nil
  then show ?case by simp
next
  case (Cons m ms)
  let ?p = "p\<lparr>points := points p @ [getCanvasCoordinates (fst m) (snd m)]\<rparr>"
  let ?s = "s\<lparr>currentPath := Some ?p\<rparr>"
  have "step (fst m, PointerMove (snd m)) s = ?s"
    using Cons.prems by (simp add: handleMouseMove_open)
  moreover have "isDrawing ?s" and "currentPath ?s = Some ?p"
    using Cons.prems by simp_all
  ultimately show ?case
    using Cons.IH [of ?s ?p] by simp
qed






text \<open>
  When every event of a gesture reaches the handlers of a render that has seen the
  events before it, the gesture of one pointer-begin, k pointer-moves and one pointer-end
  commits one stroke of k + 1 points: the translated position of the begin followed by
  those of the moves.
\<close>

lemma rendered_gesture_point_count:
  "strokes (run (gesture b ms cv) s) =
     strokes s @ [(open_stroke (fst b) (snd b) s)\<lparr>points :=
        getCanvasCoordinates (fst b) (snd b) # map (\<lambda>m. getCanvasCoordinates (fst m) (snd m)) ms\<rparr>]
   \<and> length (points (last (strokes (run (gesture b ms cv) s)))) = length ms + 1"
proof -
  let ?o = "open_stroke (fst b) (snd b) s"
  let ?s1 = "s\<lparr>isDrawing := True, currentPath := Some ?o\<rparr>"
  let ?pts = "map (\<lambda>m. getCanvasCoordinates (fst m) (snd m)) ms"
  let ?s2 = "?s1\<lparr>currentPath := Some (?o\<lparr>points := points ?o @ ?pts\<rparr>)\<rparr>"
  have opened: "step (fst b, PointerBegin (snd b)) s = ?s1"
    by (simp add: handleMouseDown_open)
  have moves: "run (map (\<lambda>m. (fst m, PointerMove (snd m))) ms) ?s1 = ?s2"
    by (rule run_moves) simp_all
  have "run (gesture b ms cv) s = handleMouseUp ?s2 ?s2"
    unfolding gesture_def using opened moves by (simp add: run_append)
  then have log: "strokes (run (gesture b ms cv) s) =
      strokes s @ [?o\<lparr>points := getCanvasCoordinates (fst b) (snd b) # ?pts\<rparr>]"
    by (simp add: handleMouseUp_commit open_stroke_def)
  show ?thesis
    using log by simp
qed

text \<open>
  C5 does not hold of the code. A pointer-move only schedules its render, so a
  pointer-end can reach the handler of the render before it. That handler appends the
  in-progress stroke of its closure, which lacks the points of the moves not yet
  rendered, although the queued in-progress stroke has them: after a begin and two moves,
  the second move not yet rendered when the pointer-end arrives, the in-progress stroke
  has three points and the stroke that is committed has two.
\<close>

theorem late_render_drops_point:
  "map_option points (currentPath (queued (run_frames late_render_moves mounted))) =
     Some [\<lparr>px = 10, py = 10\<rparr>, \<lparr>px = 20, py = 10\<rparr>, \<lparr>px = 30, py = 10\<rparr>]
   \<and> map points (strokes (queued (run_frames
         (late_render_moves @ [Dispatch (Some page_canvas, PointerEnd), Render]) mounted))) =
     [[\<lparr>px = 10, py = 10\<rparr>, \<lparr>px = 20, py = 10\<rparr>]]
   \<and> map points (strokes (run (gesture (Some page_canvas, mouse_at 18 110)
         [(Some page_canvas, mouse_at 28 110), (Some page_canvas, mouse_at 38 110)]
         (Some page_canvas)) initial)) =
     [[\<lparr>px = 10, py = 10\<rparr>, \<lparr>px = 20, py = 10\<rparr>, \<lparr>px = 30, py = 10\<rparr>]]"
  by (simp add: late_render_moves_def mounted_def gesture_def handler_defs sample_defs)

subsection \<open>A second pointer-begin\<close>

text \<open>
  C7, as claimed, fails: in the state reached by a pointer-begin and a pointer-move the
  component is drawing and its in-progress stroke has two points; a second pointer-begin
  replaces that stroke by a new one of one point, so it is not ignored.
\<close>

theorem second_begin_counterexample:
  "isDrawing drawing_state
   \<and> map_option points (currentPath drawing_state) = Some [\<lparr>px = 10, py = 10\<rparr>, \<lparr>px = 20, py = 10\<rparr>]
   \<and> map_option points (currentPath (step (Some page_canvas, PointerBegin (mouse_at 58 150)) drawing_state))
       = Some [\<lparr>px = 50, py = 50\<rparr>]
   \<and> step (Some page_canvas, PointerBegin (mouse_at 58 150)) drawing_state \<noteq> drawing_state"
proof -
  have cur: "currentPath drawing_state =
      Some \<lparr>points = [\<lparr>px = 10, py = 10\<rparr>, \<lparr>px = 20, py = 10\<rparr>], color = ''#EF4444'',
        width = Num 5, tool = Brush\<rparr>"
    by (simp add: drawing_state_def handler_defs sample_defs)
  have drw: "isDrawing drawing_state"
    by (simp add: drawing_state_def handler_defs sample_defs)
  have nxt: "currentPath (step (Some page_canvas, PointerBegin (mouse_at 58 150)) drawing_state) =
      Some \<lparr>points = [\<lparr>px = 50, py = 50\<rparr>], color = brushColor drawing_state,
        width = (if activeTool drawing_state = Brush then brushSize drawing_state
                 else eraserSize drawing_state), tool = activeTool drawing_state\<rparr>"
    by (simp add: handleMouseDown_def page_canvas_def mouse_at_def getCanvasCoordinates_def)
  have "currentPath (step (Some page_canvas, PointerBegin (mouse_at 58 150)) drawing_state)
      \<noteq> currentPath drawing_state"
    unfolding nxt cur by simp
  then have "step (Some page_canvas, PointerBegin (mouse_at 58 150)) drawing_state \<noteq> drawing_state"
    by auto
  with cur drw nxt show ?thesis by simp
qed

text \<open>
  C7, amended. \<^verbatim>\<open>handleMouseDown\<close> has no guard on the drawing flag: in every
  state and with every closure, also while a stroke is open, a pointer-begin makes the
  in-progress stroke a fresh stroke of one point with the tool, colour and width of its
  closure, keeps the component drawing and leaves the committed log as it is. The stroke
  that was open is dropped: a pointer-end that follows commits the fresh stroke only.
\<close>

theorem begin_replaces_open_stroke:
  "currentPath (handleMouseDown cv e cl s) = Some (open_stroke cv e cl)
   \<and> isDrawing (handleMouseDown cv e cl s)
   \<and> strokes (handleMouseDown cv e cl s) = strokes s
   \<and> strokes (run [(cv, PointerBegin e), (cv', PointerEnd)] s) = strokes s @ [open_stroke cv e s]"
  by (simp add: handleMouseDown_def handleMouseUp_def open_stroke_def)

subsection \<open>The toolbar\<close>

text \<open>
  C9. A click on a colour button makes that colour the brush colour and makes the brush
  the active tool, also when the eraser was active.
\<close>

theorem color_click_selects_brush:
  "activeTool (selectColor v s) = Brush \<and> brushColor (selectColor v s) = v
   \<and> activeTool (step (cv, ColorClick v) (selectEraser s)) = Brush"
  by (simp add: selectColor_def)

text \<open>
  C8. A change of aspect ratio leaves the committed strokes, hence the number and the
  content of their point sequences, as they are: nothing is rescaled or moved. The
  in-progress stroke, the drawing flag, the tool, the colour and the two widths are
  unchanged as well. Only the ratio changes, and with it the size the canvas is rendered
  with: 800 times the mapped ratio wide (800, 533 or 1200 pixels) and 800 high.
\<close>

theorem ratio_change_keeps_strokes:
  "strokes (setAspectRatio r s) = strokes s
   \<and> map points (strokes (step (cv, RatioClick r) s)) = map points (strokes s)
   \<and> currentPath (setAspectRatio r s) = currentPath s
   \<and> isDrawing (setAspectRatio r s) = isDrawing s
   \<and> activeTool (setAspectRatio r s) = activeTool s
   \<and> brushColor (setAspectRatio r s) = brushColor s
   \<and> brushSize (setAspectRatio r s) = brushSize s
   \<and> eraserSize (setAspectRatio r s) = eraserSize s
   \<and> aspectRatio (setAspectRatio r s) = r
   \<and> canvas_width_attr (aspectRatio (setAspectRatio r s)) = 800 * ASPECT_RATIO_MAP r
   \<and> canvas_width (el\<lparr>ratio := aspectRatio (setAspectRatio r s)\<rparr>) =
       (case r of Ratio_1_1 \<Rightarrow> 800 | Ratio_2_3 \<Rightarrow> 533 | Ratio_3_2 \<Rightarrow> 1200)
   \<and> canvas_height (el\<lparr>ratio := aspectRatio (setAspectRatio r s)\<rparr>) = 800"
  by (cases r) (simp_all add: setAspectRatio_def canvas_width_attr_def canvas_width_def
      canvas_height_def canvas_height_attr_def)

subsection \<open>Stroke widths\<close>

text \<open>
  What a range input hands to its handler parses back to the sanitized number, which
  lies within the declared range.
\<close>

declare decimalString.simps [simp del]

lemma of_char_digitChar: "d < 10 \<Longrightarrow> (of_char (digitChar d) :: nat) = 48 + d"
  by (simp add: digitChar_def)

lemma decimalString_chars:
  "c \<in> set (decimalString n) \<Longrightarrow> 48 \<le> (of_char c :: nat) \<and> (of_char c :: nat) \<le> 57"
proof (induction n rule: decimalString.induct)
  case (1 n)
  show ?case
  proof (cases "n < 10")
    case True
    with "1.prems" have "c = digitChar n"
      by (simp add: decimalString.simps [of n])
    with True show ?thesis by (simp add: of_char_digitChar)
  next
    case False
    with "1.prems" have "c \<in> set (decimalString (n div 10)) \<or> c = digitChar (n mod 10)"
      by (auto simp add: decimalString.simps [of n])
    then show ?thesis
    proof
      assume "c \<in> set (decimalString (n div 10))"
      with False "1.IH" show ?thesis by simp
    next
      assume "c = digitChar (n mod 10)"
      then show ?thesis by (simp add: of_char_digitChar)
    qed
  qed
qed

lemma decimalString_nonempty: "decimalString n \<noteq> []"
  by (subst decimalString.simps) simp

lemma digitValue_digitChar: "d < 10 \<Longrightarrow> digitValue (digitChar d) = Some d"
  by (simp add: digitValue_def of_char_digitChar)

lemma digitsValue_snoc:
  "digitsValue R (Z @ [c]) = digitsValue R Z * R + (case digitValue c of Some d \<Rightarrow> d | None \<Rightarrow> 0)"
  by (simp add: digitsValue_def)

lemma digitsValue_decimalString: "digitsValue 10 (decimalString n) = n"
proof (induction n rule: decimalString.induct)
  case (1 n)
  show ?case
  proof (cases "n < 10")
    case True
    then show ?thesis
      by (simp add: decimalString.simps [of n] digitsValue_def digitValue_digitChar)
  next
    case False
    with "1.IH" have "digitsValue 10 (decimalString (n div 10)) = n div 10"
      by simp
    with False show ?thesis
      by (simp add: decimalString.simps [of n] digitsValue_snoc digitValue_digitChar)
  qed
qed

lemma decimal_char_facts:
  assumes "48 \<le> (of_char c :: nat)" and "(of_char c :: nat) \<le> 57"
  shows "\<not> isWhiteSpace c" and "isRadixDigit 10 c" and "c \<noteq> CHR ''-''" and "c \<noteq> CHR ''+''"
    and "c \<noteq> CHR ''x''" and "c \<noteq> CHR ''X''"
  using assms by (auto simp add: isWhiteSpace_def isRadixDigit_def digitValue_def)

lemma parseInt_digits:
  assumes "D = decimalString n"
  shows "parseInt D = Num (int n)" and "parseInt (CHR ''-'' # D) = Num (- int n)"
proof -
  have all: "\<And>c. c \<in> set D \<Longrightarrow> 48 \<le> (of_char c :: nat) \<and> (of_char c :: nat) \<le> 57"
    using assms decimalString_chars by simp
  have ne: "D \<noteq> []"
    using assms decimalString_nonempty by simp
  then have hdD: "hd D \<in> set D" by simp
  have nows: "\<not> isWhiteSpace (hd D)" and nominus: "hd D \<noteq> CHR ''-''" and noplus: "hd D \<noteq> CHR ''+''"
    using all [OF hdD] decimal_char_facts by blast+
  have drop: "dropWhile isWhiteSpace D = D"
    using ne nows by (cases D) simp_all
  have nohex: "take 2 D \<noteq> ''0x''" "take 2 D \<noteq> ''0X''"
  proof -
    have "CHR ''x'' \<notin> set D" "CHR ''X'' \<notin> set D"
      using all decimal_char_facts by blast+
    then have "CHR ''x'' \<notin> set (take 2 D)" "CHR ''X'' \<notin> set (take 2 D)"
      by (auto dest: in_set_takeD)
    then show "take 2 D \<noteq> ''0x''" "take 2 D \<noteq> ''0X''"
      by auto
  qed
  have digits: "takeWhile (isRadixDigit 10) D = D"
    using all decimal_char_facts by (simp add: takeWhile_eq_all_conv)
  have val: "digitsValue 10 D = n"
    using assms digitsValue_decimalString by simp
  show "parseInt D = Num (int n)"
    using ne nominus noplus nohex by (simp add: parseInt_def Let_def drop digits val)
  have "\<not> isWhiteSpace CHR ''-''"
    by (simp add: isWhiteSpace_def)
  then show "parseInt (CHR ''-'' # D) = Num (- int n)"
    using ne nohex by (simp add: parseInt_def Let_def digits val)
qed

lemma parseInt_intString: "parseInt (intString i) = Num i"
  using parseInt_digits [OF refl, of "nat (- i)"] parseInt_digits [OF refl, of "nat i"]
  by (simp add: intString_def)

lemma round_step_bounds:
  assumes "real_of_int lo \<le> c" and "c \<le> real_of_int hi"
  shows "lo \<le> lo + \<lfloor>c - real_of_int lo + 1 / 2\<rfloor> \<and> lo + \<lfloor>c - real_of_int lo + 1 / 2\<rfloor> \<le> hi"
proof -
  have "0 \<le> \<lfloor>c - real_of_int lo + 1 / 2\<rfloor>"
    using assms by (simp add: le_floor_iff)
  moreover have "\<lfloor>c - real_of_int lo + 1 / 2\<rfloor> \<le> hi - lo"
    using assms by (simp add: floor_le_iff)
  ultimately show ?thesis by linarith
qed

lemma rangeSanitized_bounds:
  assumes "lo \<le> hi"
  shows "lo \<le> rangeSanitized lo hi raw \<and> rangeSanitized lo hi raw \<le> hi"
proof -
  let ?v = "case raw of NotANumber \<Rightarrow> real_of_int lo + (real_of_int hi - real_of_int lo) / 2
    | Number r \<Rightarrow> r"
  consider "?v < real_of_int lo" | "real_of_int hi < ?v" | "real_of_int lo \<le> ?v" "?v \<le> real_of_int hi"
    by linarith
  then show ?thesis
  proof cases
    case 1
    then have "rangeSanitized lo hi raw = lo + \<lfloor>real_of_int lo - real_of_int lo + 1 / 2\<rfloor>"
      using assms by (simp add: rangeSanitized_def Let_def)
    then show ?thesis
      using round_step_bounds [of lo "real_of_int lo" hi] assms by simp
  next
    case 2
    then have "rangeSanitized lo hi raw = lo + \<lfloor>real_of_int hi - real_of_int lo + 1 / 2\<rfloor>"
      using assms by (simp add: rangeSanitized_def Let_def)
    then show ?thesis
      using round_step_bounds [of lo "real_of_int hi" hi] assms by simp
  next
    case 3
    then have "rangeSanitized lo hi raw = lo + \<lfloor>?v - real_of_int lo + 1 / 2\<rfloor>"
      using assms by (simp add: rangeSanitized_def Let_def)
    then show ?thesis
      using round_step_bounds [of lo ?v hi] 3 by simp
  qed
qed

lemma range_value_within:
  "lo \<le> hi \<Longrightarrow> width_within lo hi (parseInt (rangeInputValue lo hi raw))"
  using rangeSanitized_bounds [of lo hi raw]
  by (simp add: rangeInputValue_def parseInt_intString width_within_def)

lemma stroke_width_ok_points: "stroke_width_ok (p\<lparr>points := q\<rparr>) = stroke_width_ok p"
  by (simp add: stroke_width_ok_def split: tool.split)

lemma brush_value_within:
  "width_within brushMin brushMax (parseInt (rangeInputValue brushMin brushMax raw))"
  by (rule range_value_within) (simp add: brushMin_def brushMax_def)

lemma eraser_value_within:
  "width_within eraserMin eraserMax (parseInt (rangeInputValue eraserMin eraserMax raw))"
  by (rule range_value_within) (simp add: eraserMin_def eraserMax_def)

lemma widths_ok_step: "widths_ok s \<Longrightarrow> widths_ok (step d s)"
proof (cases d)
  case (Pair cv ev)
  assume inv: "widths_ok s"
  show ?thesis
  proof (cases ev)
    case (PointerBegin e)
    with Pair inv show ?thesis
      by (cases "activeTool s") (simp_all add: widths_ok_def handleMouseDown_def stroke_width_ok_def)
  next
    case (PointerMove e)
    with Pair inv show ?thesis
      by (auto simp add: widths_ok_def handleMouseMove_def stroke_width_ok_points split: option.splits)
  next
    case PointerEnd
    with Pair inv show ?thesis
      by (auto simp add: widths_ok_def handleMouseUp_def split: option.splits)
  next
    case UndoClick
    with Pair inv show ?thesis
      by (simp add: widths_ok_def handleUndo_def js_slice_def list_all_iff)
        (auto dest: in_set_takeD)
  next
    case ClearClick
    with Pair inv show ?thesis by (simp add: widths_ok_def handleClear_def)
  next
    case (RatioClick r)
    with Pair inv show ?thesis by (simp add: widths_ok_def setAspectRatio_def)
  next
    case (ColorClick v)
    with Pair inv show ?thesis by (simp add: widths_ok_def selectColor_def)
  next
    case EraserClick
    with Pair inv show ?thesis by (simp add: widths_ok_def selectEraser_def)
  next
    case (BrushSizeChange raw)
    with Pair inv show ?thesis
      by (simp add: widths_ok_def onBrushSizeChange_def brush_value_within)
  next
    case (EraserSizeChange raw)
    with Pair inv show ?thesis
      by (simp add: widths_ok_def onEraserSizeChange_def eraser_value_within)
  qed
qed

lemma widths_ok_run: "widths_ok s \<Longrightarrow> widths_ok (run ds s)"
  by (induction ds arbitrary: s) (simp_all add: widths_ok_step)

lemma widths_ok_initial: "widths_ok initial"
  by (simp add: widths_ok_def initial_def width_within_def brushMin_def brushMax_def
      eraserMin_def eraserMax_def)



subsection \<open>Rendering\<close>

lemma fold_lineTo:
  "path c = [sub] \<Longrightarrow> fold (\<lambda>p. lineTo (px p) (py p)) pts c = c\<lparr>path := [sub @ pts]\<rparr>"
proof (induction pts arbitrary: c sub)
  case Nil
  then show ?case by simp
next
  case (Cons p pts)
  have "lineTo (px p) (py p) c = c\<lparr>path := [sub @ [p]]\<rparr>"
    using Cons.prems by (simp add: lineTo_def)
  then show ?case
    using Cons.IH [of "c\<lparr>path := [sub @ [p]]\<rparr>" "sub @ [p]"] by simp
qed

lemma set_strokeStyle_color: "isHexColor v \<Longrightarrow> set_strokeStyle v ctx = ctx\<lparr>strokeStyle := v\<rparr>"
  by (simp add: set_strokeStyle_def)

lemma set_lineWidth_positive:
  "(case w of Num n \<Rightarrow> 0 < n | NaN \<Rightarrow> False) \<Longrightarrow> set_lineWidth w ctx = ctx\<lparr>lineWidth := w\<rparr>"
  by (cases w) (simp_all add: set_lineWidth_def)

lemma draw_stroke_points:
  assumes "points st = p0 # ps" and "paintable st"
  shows "draw_stroke (Some st) ctx =
     ctx\<lparr>strokeStyle := color st, lineWidth := width st, lineCap := RoundCap,
         lineJoin := RoundJoin, globalCompositeOperation := spec_composite (tool st),
         path := [p0 # p0 # ps], bitmap := bitmap ctx @ [spec_painted_stroke st]\<rparr>"
proof -
  let ?c6 = "ctx\<lparr>path := [], strokeStyle := color st, lineWidth := width st,
      lineCap := RoundCap, lineJoin := RoundJoin,
      globalCompositeOperation := spec_composite (tool st)\<rparr>"
  let ?c7 = "moveTo (px p0) (py p0) ?c6"
  have gco: "(if tool st = Eraser then DestinationOut else SourceOver) = spec_composite (tool st)"
    by (cases "tool st") (simp_all add: spec_composite_def)
  have style: "set_strokeStyle (color st) (beginPath ctx) = (beginPath ctx)\<lparr>strokeStyle := color st\<rparr>"
    using assms(2) by (simp add: paintable_def set_strokeStyle_color)
  have wide: "set_lineWidth (width st) ((beginPath ctx)\<lparr>strokeStyle := color st\<rparr>) =
      (beginPath ctx)\<lparr>strokeStyle := color st, lineWidth := width st\<rparr>"
    using assms(2) by (simp add: paintable_def set_lineWidth_positive)
  have p7: "path ?c7 = [[p0]]"
    by (simp add: moveTo_def)
  have "draw_stroke (Some st) ctx = stroke_path (fold (\<lambda>p. lineTo (px p) (py p)) (p0 # ps) ?c7)"
    using assms(1) gco by (simp add: draw_stroke_def Let_def style wide) (simp add: beginPath_def)
  also have "\<dots> = stroke_path (?c7\<lparr>path := [[p0] @ (p0 # ps)]\<rparr>)"
    by (simp only: fold_lineTo [OF p7])
  finally show ?thesis
    using assms(1) by (simp add: stroke_path_def moveTo_def spec_painted_stroke_def)
qed

lemma draw_stroke_skip: "so = None \<or> (\<exists>st. so = Some st \<and> points st = []) \<Longrightarrow> draw_stroke so ctx = ctx"
  by (auto simp add: draw_stroke_def)

lemma bitmap_draw_stroke:
  assumes "list_all paintable (filter (\<lambda>st. points st \<noteq> []) (case so of None \<Rightarrow> [] | Some st \<Rightarrow> [st]))"
  shows "bitmap (draw_stroke so ctx) =
     bitmap ctx @ map spec_painted_stroke
       (filter (\<lambda>st. points st \<noteq> []) (case so of None \<Rightarrow> [] | Some st \<Rightarrow> [st]))"
proof (cases so)
  case None
  then show ?thesis by (simp add: draw_stroke_skip)
next
  case (Some st)
  show ?thesis
  proof (cases "points st")
    case Nil
    with Some show ?thesis by (simp add: draw_stroke_skip)
  next
    case (Cons p0 ps)
    with Some assms have "paintable st" by simp
    with Some Cons show ?thesis by (simp add: draw_stroke_points)
  qed
qed

lemma bitmap_fold_draw_stroke:
  "list_all paintable (filter (\<lambda>st. points st \<noteq> []) strks) \<Longrightarrow>
   bitmap (fold draw_stroke (map Some strks) ctx) =
     bitmap ctx @ map spec_painted_stroke (filter (\<lambda>st. points st \<noteq> []) strks)"
proof (induction strks arbitrary: ctx)
  case Nil
  show ?case by simp
next
  case (Cons st strks)
  have one: "bitmap (draw_stroke (Some st) ctx) =
      bitmap ctx @ map spec_painted_stroke (filter (\<lambda>st. points st \<noteq> []) [st])"
    using Cons.prems bitmap_draw_stroke [of "Some st" ctx] by (simp split: if_splits)
  have rest: "list_all paintable (filter (\<lambda>st. points st \<noteq> []) strks)"
    using Cons.prems by (simp split: if_splits)
  show ?case
    using Cons.IH [OF rest, of "draw_stroke (Some st) ctx"] one by simp
qed

lemma bitmap_draw_sequence:
  assumes "list_all paintable (spec_render_sequence strks cur)"
  shows "bitmap (fold draw_stroke (map Some strks @ [cur]) ctx) =
     bitmap ctx @ map spec_painted_stroke (spec_render_sequence strks cur)"
proof -
  have log: "list_all paintable (filter (\<lambda>st. points st \<noteq> []) strks)"
    and last: "list_all paintable
      (filter (\<lambda>st. points st \<noteq> []) (case cur of None \<Rightarrow> [] | Some st \<Rightarrow> [st]))"
    using assms by (simp_all add: spec_render_sequence_def)
  show ?thesis
    by (simp add: bitmap_draw_stroke [OF last] bitmap_fold_draw_stroke [OF log]
        spec_render_sequence_def)
qed

text \<open>
  Every stroke the component can hold is painted with its own attributes: its width lies
  within the range of a slider, hence is positive, and its colour is one of the palette,
  as long as the colour clicks are those of the palette buttons.
\<close>

lemma palette_click_color: "palette_click (ColorClick v) \<Longrightarrow> isHexColor v"
  by (auto simp add: colors_def setter_defs)

lemma palette_ok_step:
  "palette_ok s \<Longrightarrow> palette_click (snd d) \<Longrightarrow> palette_ok (step d s)"
proof (cases d)
  case (Pair cv ev)
  assume inv: "palette_ok s" and ok: "palette_click (snd d)"
  show ?thesis
  proof (cases ev)
    case (PointerBegin e)
    with Pair inv show ?thesis by (simp add: palette_ok_def handleMouseDown_def)
  next
    case (PointerMove e)
    with Pair inv show ?thesis
      by (auto simp add: palette_ok_def handleMouseMove_def split: option.splits)
  next
    case PointerEnd
    with Pair inv show ?thesis
      by (auto simp add: palette_ok_def handleMouseUp_def split: option.splits)
  next
    case UndoClick
    with Pair inv show ?thesis
      by (simp add: palette_ok_def handleUndo_def js_slice_def list_all_iff)
        (auto dest: in_set_takeD)
  next
    case ClearClick
    with Pair inv show ?thesis by (simp add: palette_ok_def handleClear_def)
  next
    case (RatioClick r)
    with Pair inv show ?thesis by (simp add: palette_ok_def setAspectRatio_def)
  next
    case (ColorClick v)
    with Pair ok have "isHexColor v" by (simp add: palette_click_color)
    with ColorClick Pair inv show ?thesis by (simp add: palette_ok_def selectColor_def)
  next
    case EraserClick
    with Pair inv show ?thesis by (simp add: palette_ok_def selectEraser_def)
  next
    case (BrushSizeChange raw)
    with Pair inv show ?thesis by (simp add: palette_ok_def onBrushSizeChange_def)
  next
    case (EraserSizeChange raw)
    with Pair inv show ?thesis by (simp add: palette_ok_def onEraserSizeChange_def)
  qed
qed

lemma palette_ok_run:
  "palette_ok s \<Longrightarrow> list_all (\<lambda>d. palette_click (snd d)) ds \<Longrightarrow> palette_ok (run ds s)"
  by (induction ds arbitrary: s) (simp_all add: palette_ok_step)

lemma stroke_ok_paintable: "stroke_width_ok st \<Longrightarrow> isHexColor (color st) \<Longrightarrow> paintable st"
  by (cases "tool st"; cases "width st")
    (simp_all add: stroke_width_ok_def width_within_def paintable_def brushMin_def eraserMin_def)

lemma reachable_strokes_paintable:
  assumes "list_all (\<lambda>d. palette_click (snd d)) ds"
  shows "list_all paintable
    (spec_render_sequence (strokes (run ds initial)) (currentPath (run ds initial)))"
proof -
  have "palette_ok initial"
    by (simp add: palette_ok_def initial_def setter_defs)
  then have "palette_ok (run ds initial)"
    using assms by (rule palette_ok_run)
  moreover have "widths_ok (run ds initial)"
    by (rule widths_ok_run [OF widths_ok_initial])
  ultimately show ?thesis
    by (auto simp add: palette_ok_def widths_ok_def spec_render_sequence_def list_all_iff
        intro: stroke_ok_paintable split: option.splits)
qed

text \<open>
  C1. When the canvas and its context exist and the strokes to render have a positive
  width and a colour, as all strokes of the component have, \<open>draw\<close> adds to what the
  canvas holds, first, the clearing of the whole surface (the rectangle from the origin with the
  width and height of the canvas), then, for the strokes of the log in insertion order
  followed by the in-progress stroke, leaving out those without points, one painted
  stroke each: a single connected subpath through the stroke's points in order, round
  caps and joins, the stroke's width and colour, source-over for the brush and
  destination-out for the eraser whatever its colour. The compositing mode of the
  context is source-over afterwards.
\<close>

theorem draw_repaints_from_log:
  "canvasRef0 = Some cv \<Longrightarrow> getContext2d cv = Some ctx \<Longrightarrow>
   list_all paintable (spec_render_sequence strks cur) \<Longrightarrow>
   map_option canvas_bitmap (draw strks cur canvasRef0) =
     Some (bitmap ctx @ ClearedRect 0 0 (real (canvas_width cv)) (real (canvas_height cv))
       # map spec_painted_stroke (spec_render_sequence strks cur))
   \<and> map_option (\<lambda>c. map_option globalCompositeOperation (getContext2d c))
       (draw strks cur canvasRef0) = Some (Some SourceOver)"
proof -
  assume ref: "canvasRef0 = Some cv" and got: "getContext2d cv = Some ctx"
    and ok: "list_all paintable (spec_render_sequence strks cur)"
  let ?c1 = "clearRect 0 0 (real (canvas_width cv)) (real (canvas_height cv)) ctx"
  let ?c2 = "fold draw_stroke (map Some strks @ [cur]) ?c1"
  have drawn: "draw strks cur canvasRef0 =
      Some (cv\<lparr>getContext2d := Some (?c2\<lparr>globalCompositeOperation := SourceOver\<rparr>)\<rparr>)"
    using ref got by (simp add: draw_def Let_def del: fold_append)
  have "bitmap ?c2 = bitmap ?c1 @ map spec_painted_stroke (spec_render_sequence strks cur)"
    by (rule bitmap_draw_sequence [OF ok])
  then have painted: "bitmap ?c2 =
      bitmap ctx @ ClearedRect 0 0 (real (canvas_width cv)) (real (canvas_height cv))
        # map spec_painted_stroke (spec_render_sequence strks cur)"
    by (simp add: clearRect_def)
  show ?thesis
    unfolding drawn using painted by (simp add: canvas_bitmap_def del: fold_append)
qed

text \<open>A log with the red line and a stroke without points, and an eraser dot in progress.\<close>

theorem draw_repaints_from_log_witness:
  "map_option canvas_bitmap (draw [red_line, empty_stroke] (Some rubber_dot) (Some page_canvas)) =
     Some [ClearedRect 0 0 1200 800,
       StrokedPath [[\<lparr>px = 10, py = 10\<rparr>, \<lparr>px = 10, py = 10\<rparr>, \<lparr>px = 20, py = 10\<rparr>, \<lparr>px = 30, py = 10\<rparr>]]
         ''#EF4444'' (Num 5) RoundCap RoundJoin SourceOver,
       StrokedPath [[\<lparr>px = 20, py = 10\<rparr>, \<lparr>px = 20, py = 10\<rparr>]]
         ''#EF4444'' (Num 20) RoundCap RoundJoin DestinationOut]
   \<and> list_all paintable (spec_render_sequence [red_line, empty_stroke] (Some rubber_dot))"
proof -
  have ok: "list_all paintable (spec_render_sequence [red_line, empty_stroke] (Some rubber_dot))"
    by (simp add: spec_render_sequence_def paintable_def red_line_def rubber_dot_def
        empty_stroke_def setter_defs)
  have got: "getContext2d page_canvas = Some new_context"
    by (simp add: page_canvas_def)
  show ?thesis
    using draw_repaints_from_log [OF refl got ok] ok
    by (simp add: page_canvas_def new_context_def canvas_width_def canvas_height_def
        canvas_width_attr_def canvas_height_attr_def spec_painted_stroke_def
        spec_render_sequence_def spec_composite_def red_line_def rubber_dot_def empty_stroke_def)
qed

subsection \<open>Export\<close>

text \<open>
  C3, as claimed, fails in one direction: with the drawing surface initialised, the
  export still returns null when the temporary canvas gives no 2D context.
\<close>

theorem export_null_counterexample:
  "canvasRef page_world \<noteq> None \<and> fst (getCanvasData False page_world) = None"
  by (simp add: getCanvasData_def page_world_def draw_def page_canvas_def new_context_def Let_def)

text \<open>
  C3, amended. The export returns null exactly when the drawing surface is not
  initialised or the temporary canvas gives no 2D context (the guard
  \<^verbatim>\<open>if(!tempCtx) return null\<close>). Otherwise it returns the PNG of a surface with
  the pixel size of the live canvas, filled entirely with #0D1117 and with the live
  bitmap drawn over it, unscaled, at the origin. In every case the live canvas and the
  component state, the stroke log included, are what they were.
\<close>

theorem export_flattens_live_canvas:
  "(fst (getCanvasData tempCtx w) = None \<longleftrightarrow> canvasRef w = None \<or> \<not> tempCtx)
   \<and> (tempCtx \<and> canvasRef w = Some cv \<longrightarrow> fst (getCanvasData tempCtx w) = Some (spec_flattened cv))
   \<and> snd (getCanvasData tempCtx w) = w"
  by (cases "canvasRef w")
    (simp_all add: getCanvasData_def spec_flattened_def fillRect_def drawImage_def new_context_def
      setter_defs Let_def)

text \<open>The export of the canvas on which the red line and the eraser dot were drawn.\<close>

theorem export_flattens_live_canvas_witness:
  "fst (getCanvasData True page_world) =
     Some (PngDataURL 1200 800
       [FilledRect ''#0D1117'' 0 0 1200 800,
        DrawnImage
          [ClearedRect 0 0 1200 800,
           StrokedPath [[\<lparr>px = 10, py = 10\<rparr>, \<lparr>px = 10, py = 10\<rparr>, \<lparr>px = 20, py = 10\<rparr>, \<lparr>px = 30, py = 10\<rparr>]]
             ''#EF4444'' (Num 5) RoundCap RoundJoin SourceOver,
           StrokedPath [[\<lparr>px = 20, py = 10\<rparr>, \<lparr>px = 20, py = 10\<rparr>]]
             ''#EF4444'' (Num 20) RoundCap RoundJoin DestinationOut] 0 0])
   \<and> snd (getCanvasData True page_world) = page_world
   \<and> fst (getCanvasData True (page_world\<lparr>canvasRef := None\<rparr>)) = None"
proof -
  obtain cv where ref: "canvasRef page_world = Some cv"
    and size: "canvas_width cv = 1200" "canvas_height cv = 800"
    and live: "canvas_bitmap cv =
      [ClearedRect 0 0 1200 800,
       StrokedPath [[\<lparr>px = 10, py = 10\<rparr>, \<lparr>px = 10, py = 10\<rparr>, \<lparr>px = 20, py = 10\<rparr>, \<lparr>px = 30, py = 10\<rparr>]]
         ''#EF4444'' (Num 5) RoundCap RoundJoin SourceOver,
       StrokedPath [[\<lparr>px = 20, py = 10\<rparr>, \<lparr>px = 20, py = 10\<rparr>]]
         ''#EF4444'' (Num 20) RoundCap RoundJoin DestinationOut]"
    by (simp add: page_world_def draw_def draw_stroke_def page_canvas_def new_context_def
        red_line_def rubber_dot_def canvas_width_def canvas_height_def canvas_width_attr_def
        canvas_height_attr_def canvas_bitmap_def clearRect_def beginPath_def moveTo_def
        lineTo_def stroke_path_def setter_defs Let_def)
  have none: "canvasRef (page_world\<lparr>canvasRef := None\<rparr>) = None"
    by simp
  show ?thesis
    using export_flattens_live_canvas [of True page_world cv]
      export_flattens_live_canvas [of True "page_world\<lparr>canvasRef := None\<rparr>" cv]
      ref size live none
    by (simp add: spec_flattened_def)
qed

end
